theory Spec2Isabelle
  imports Complex_Main
begin

section \<open>JavaScript values reaching the classifier\<close>

text \<open>
  \<open>loc.aqi\<close> is whatever the data source put into the JSON snapshot, or \<open>undefined\<close>
  when the field is missing. The primitive values are modelled; a JavaScript number is
  a NaN, an infinity or a finite value (every finite double is a real number, and the
  comparison of two doubles is the comparison of these reals).
\<close>

datatype jsnum = NaN | NegInf | Fin real | PosInf

datatype jsval = JUndefined | JNull | JBool bool | JNum jsnum | JStr string

text \<open>The relational operator \<open>a <= b\<close> on numbers: false as soon as one side is NaN.\<close>

fun num_le :: "jsnum \<Rightarrow> jsnum \<Rightarrow> bool" where
  "num_le NaN b = False"
| "num_le a NaN = False"
| "num_le NegInf b = True"
| "num_le a PosInf = True"
| "num_le PosInf b = False"
| "num_le a NegInf = False"
| "num_le (Fin x) (Fin y) = (x \<le> y)"

text \<open>\<open>a < b\<close> on numbers.\<close>

fun num_less :: "jsnum \<Rightarrow> jsnum \<Rightarrow> bool" where
  "num_less NaN b = False"
| "num_less a NaN = False"
| "num_less PosInf b = False"
| "num_less a NegInf = False"
| "num_less NegInf b = True"
| "num_less a PosInf = True"
| "num_less (Fin x) (Fin y) = (x < y)"

subsection \<open>StringToNumber\<close>

text \<open>
  Strings are lists of code units below 256. The white space of the language in that
  range is TAB, LF, VT, FF, CR, SP and NBSP.
\<close>

definition isWhiteSpace :: "char \<Rightarrow> bool" where
  "isWhiteSpace c = (of_char c \<in> {9, 10, 11, 12, 13, 32, 160 :: nat})"

definition trim :: "string \<Rightarrow> string" where
  "trim s = rev (dropWhile isWhiteSpace (rev (dropWhile isWhiteSpace s)))"

definition isDigit :: "char \<Rightarrow> bool" where
  "isDigit c = (48 \<le> (of_char c :: nat) \<and> (of_char c :: nat) \<le> 57)"

definition hexVal :: "char \<Rightarrow> nat option" where
  "hexVal c = (let n = (of_char c :: nat) in
     if 48 \<le> n \<and> n \<le> 57 then Some (n - 48)
     else if 65 \<le> n \<and> n \<le> 70 then Some (n - 55)
     else if 97 \<le> n \<and> n \<le> 102 then Some (n - 87)
     else None)"

definition digitsVal :: "string \<Rightarrow> nat" where
  "digitsVal ds = foldl (\<lambda>acc c. 10 * acc + ((of_char c :: nat) - 48)) 0 ds"

text \<open>Digits of a literal in base \<open>b\<close>: \<open>None\<close> when there is none or one is out of range.\<close>

fun baseDigits :: "nat \<Rightarrow> nat \<Rightarrow> string \<Rightarrow> nat option" where
  "baseDigits b acc [] = Some acc"
| "baseDigits b acc (c # cs) =
     (case hexVal c of
        None \<Rightarrow> None
      | Some d \<Rightarrow> if d < b then baseDigits b (b * acc + d) cs else None)"

definition nonDecimalLiteral :: "string \<Rightarrow> nat option" where
  "nonDecimalLiteral s =
     (case s of
        z # p # d # ds \<Rightarrow>
          if z \<noteq> CHR ''0'' then None
          else if p = CHR ''x'' \<or> p = CHR ''X'' then baseDigits 16 0 (d # ds)
          else if p = CHR ''o'' \<or> p = CHR ''O'' then baseDigits 8 0 (d # ds)
          else if p = CHR ''b'' \<or> p = CHR ''B'' then baseDigits 2 0 (d # ds)
          else None
      | _ \<Rightarrow> None)"

text \<open>An optional exponent part: \<open>e\<close> or \<open>E\<close>, an optional sign, at least one digit.\<close>

definition exponentPart :: "string \<Rightarrow> int option" where
  "exponentPart s =
     (case s of
        [] \<Rightarrow> Some 0
      | c # cs \<Rightarrow>
          if c = CHR ''e'' \<or> c = CHR ''E'' then
            (case cs of
               [] \<Rightarrow> None
             | g # ds \<Rightarrow>
                 if g = CHR ''+'' then
                   (if ds \<noteq> [] \<and> list_all isDigit ds then Some (int (digitsVal ds)) else None)
                 else if g = CHR ''-'' then
                   (if ds \<noteq> [] \<and> list_all isDigit ds then Some (- int (digitsVal ds)) else None)
                 else if list_all isDigit cs then Some (int (digitsVal cs))
                 else None)
          else None)"

text \<open>
  The mathematical value of mantissa and decimal exponent. The value is kept exact:
  the rounding of a decimal literal to the nearest double is not part of the model.
\<close>

definition scale10 :: "nat \<Rightarrow> int \<Rightarrow> real" where
  "scale10 m e = (if 0 \<le> e then real m * 10 ^ nat e else real m / 10 ^ nat (- e))"

definition unsignedDecimal :: "string \<Rightarrow> jsnum" where
  "unsignedDecimal s =
     (if s = ''Infinity'' then PosInf
      else
        let ip = takeWhile isDigit s; r = dropWhile isDigit s in
        (case r of
           [] \<Rightarrow> if ip = [] then NaN else Fin (real (digitsVal ip))
         | c # r1 \<Rightarrow>
             if c = CHR ''.'' then
               (let fp = takeWhile isDigit r1; r2 = dropWhile isDigit r1 in
                if ip = [] \<and> fp = [] then NaN
                else (case exponentPart r2 of
                        None \<Rightarrow> NaN
                      | Some e \<Rightarrow> Fin (scale10 (digitsVal (ip @ fp)) (e - int (length fp)))))
             else if ip = [] then NaN
             else (case exponentPart r of
                     None \<Rightarrow> NaN
                   | Some e \<Rightarrow> Fin (scale10 (digitsVal ip) e))))"

fun negate :: "jsnum \<Rightarrow> jsnum" where
  "negate NaN = NaN"
| "negate NegInf = PosInf"
| "negate PosInf = NegInf"
| "negate (Fin x) = Fin (- x)"

definition StringToNumber :: "string \<Rightarrow> jsnum" where
  "StringToNumber str =
     (let s = trim str in
      case s of
        [] \<Rightarrow> Fin 0
      | c # cs \<Rightarrow>
          (case nonDecimalLiteral s of
             Some n \<Rightarrow> Fin (real n)
           | None \<Rightarrow>
               if c = CHR ''+'' then unsignedDecimal cs
               else if c = CHR ''-'' then negate (unsignedDecimal cs)
               else unsignedDecimal s))"

fun ToNumber :: "jsval \<Rightarrow> jsnum" where
  "ToNumber JUndefined = NaN"
| "ToNumber JNull = Fin 0"
| "ToNumber (JBool b) = (if b then Fin 1 else Fin 0)"
| "ToNumber (JNum n) = n"
| "ToNumber (JStr s) = StringToNumber s"

text \<open>\<open>v <= k\<close> for a value and a numeric literal: the value is converted first.\<close>

definition js_le :: "jsval \<Rightarrow> real \<Rightarrow> bool" where
  "js_le v k = num_le (ToNumber v) (Fin k)"

section \<open>The AQI classifier\<close>

definition getColor :: "jsval \<Rightarrow> string" where
  "getColor aqi =
     (if js_le aqi 50 then ''green''
      else if js_le aqi 100 then ''yellow''
      else if js_le aqi 150 then ''orange''
      else if js_le aqi 200 then ''red''
      else if js_le aqi 300 then ''purple''
      else ''maroon'')"

text \<open>An integer AQI as the JavaScript number it is.\<close>

definition intAqi :: "int \<Rightarrow> jsval" where
  "intAqi n = JNum (Fin (of_int n))"

text \<open>
  The severity bands and the colour of each, in the order of the legend control
  (Good (0-50) green, Moderate (51-100) yellow, Unhealthy for Sensitive (101-150)
  orange, Unhealthy (151-200) red, Very Unhealthy (201-300) purple, Hazardous (301+)
  maroon).
\<close>

datatype SeverityBand =
  Good | Moderate | SensitiveUnhealthy | Unhealthy | VeryUnhealthy | Hazardous

definition legend :: "(string \<times> SeverityBand) list" where
  "legend =
     [(''green'', Good), (''yellow'', Moderate), (''orange'', SensitiveUnhealthy),
      (''red'', Unhealthy), (''purple'', VeryUnhealthy), (''maroon'', Hazardous)]"

definition bandOfColor :: "string \<Rightarrow> SeverityBand option" where
  "bandOfColor c = map_of legend c"

fun severity :: "SeverityBand \<Rightarrow> nat" where
  "severity Good = 0"
| "severity Moderate = 1"
| "severity SensitiveUnhealthy = 2"
| "severity Unhealthy = 3"
| "severity VeryUnhealthy = 4"
| "severity Hazardous = 5"

section \<open>Locations and the search navigator\<close>

text \<open>
  A location of the directory. The search reads \<open>l.name || ""\<close>, so a missing name is
  part of the data the code expects; the AQI is whatever value the snapshot carries.
\<close>

record Location =
  name :: "string option"
  lat :: real
  lon :: real
  aqi :: jsval
  condition :: string

text \<open>
  \<open>toLowerCase\<close> on code units below 256: the upper-case letters there are A to Z,
  U+00C0 to U+00D6 and U+00D8 to U+00DE, each 32 below its lower-case letter.
\<close>

definition lowerChar :: "char \<Rightarrow> char" where
  "lowerChar c = (let n = (of_char c :: nat) in
     if (65 \<le> n \<and> n \<le> 90) \<or> (192 \<le> n \<and> n \<le> 214) \<or> (216 \<le> n \<and> n \<le> 222)
     then char_of (n + 32) else c)"

definition toLowerCase :: "string \<Rightarrow> string" where
  "toLowerCase s = map lowerChar s"

text \<open>\<open>s.includes(q)\<close>: \<open>q\<close> starts at some position of \<open>s\<close>.\<close>

fun startsWith :: "string \<Rightarrow> string \<Rightarrow> bool" where
  "startsWith s [] = True"
| "startsWith [] (q # qs) = False"
| "startsWith (c # cs) (q # qs) = (c = q \<and> startsWith cs qs)"

fun includes_str :: "string \<Rightarrow> string \<Rightarrow> bool" where
  "includes_str [] q = (q = [])"
| "includes_str (c # cs) q = (startsWith (c # cs) q \<or> includes_str cs q)"

text \<open>\<open>a || b\<close> on strings (the empty string is falsy), and on a possibly missing string.\<close>

definition strOr :: "string \<Rightarrow> string \<Rightarrow> string" where
  "strOr a b = (if a = [] then b else a)"

definition orEmpty :: "string option \<Rightarrow> string" where
  "orEmpty x = (case x of None \<Rightarrow> [] | Some s \<Rightarrow> strOr s [])"

text \<open>
  What a handler asks of its surroundings, in order: \<open>map.flyTo([lat, lon], zoom,
  {animate})\<close> on a map instance, and a call of the host's \<open>onSelect\<close>.
\<close>

datatype command = FlyTo nat "real \<times> real" int bool | OnSelect Location

text \<open>
  The selection emitter \<open>onSelect && onSelect(loc)\<close>, used by the marker click handler
  and by the search; \<open>onSelect\<close> tells whether the host supplied the callback.
\<close>

definition notify :: "bool \<Rightarrow> Location \<Rightarrow> command list" where
  "notify onSelect loc = (if onSelect then [OnSelect loc] else [])"

definition handleSearch :: "bool \<Rightarrow> nat option \<Rightarrow> Location list \<Rightarrow> string \<Rightarrow> command list" where
  "handleSearch onSelect mapInst locations search =
     (let qRaw = trim (strOr search []) in
      if qRaw = [] then []
      else
        let q = toLowerCase qRaw;
            found = List.find (\<lambda>l. includes_str (toLowerCase (orEmpty (name l))) q) locations
        in (case found of
              None \<Rightarrow> []
            | Some l \<Rightarrow>
                (case mapInst of
                   None \<Rightarrow> []
                 | Some m \<Rightarrow> FlyTo m (lat l, lon l) 8 True # notify onSelect l)))"

text \<open>
  The match of the specification, in its words: the case-folded name contains the
  case-folded trimmed query as a substring.
\<close>

definition nameContains :: "string \<Rightarrow> Location \<Rightarrow> bool" where
  "nameContains query l =
     (\<exists>pre post. toLowerCase (orEmpty (name l)) = pre @ toLowerCase (trim query) @ post)"

text \<open>The directory of the specification's example.\<close>

definition newDelhi :: Location where
  "newDelhi = \<lparr>name = Some ''New Delhi'', lat = 28.6, lon = 77.2, aqi = intAqi 180,
               condition = ''Unhealthy''\<rparr>"

definition delhiHeights :: Location where
  "delhiHeights = \<lparr>name = Some ''Delhi Heights'', lat = 28.7, lon = 77.1, aqi = intAqi 90,
                   condition = ''Moderate''\<rparr>"

section \<open>The viewport synchronizer\<close>

text \<open>
  A listener registered on a map instance is a closure with an identity. The effect of
  the component creates one \<open>setCenter\<close> closure per run, over the map instance of
  that run; every other listener on an instance belongs to somebody else.
\<close>

datatype listener = SetCenter nat nat | Foreign nat

record LeafletMap =
  center :: "real \<times> real"
  zoom :: int
  listeners :: "(string \<times> listener) list"

text \<open>
  The map instances live in a store indexed by handle. Beside it, the state of the
  component: \<open>map\<close>, \<open>miniCenter\<close>, \<open>miniZoom\<close>, \<open>miniMapRef.current\<close>, the cleanup that
  the last run of the effect returned, and the number of closures created so far.
\<close>

record World =
  maps :: "nat \<Rightarrow> LeafletMap"
  mounted :: bool
  mapState :: "nat option"
  miniCenter :: "(real \<times> real) option"
  miniZoom :: int
  miniMapRef :: "nat option"
  syncCleanup :: "(nat \<times> listener) option"
  nextClosure :: nat

definition setView :: "nat \<Rightarrow> real \<times> real \<Rightarrow> int \<Rightarrow> World \<Rightarrow> World" where
  "setView k c z w = w\<lparr>maps := (maps w)(k := (maps w k)\<lparr>center := c, zoom := z\<rparr>)\<rparr>"

text \<open>\<open>map.on(type, fn)\<close> keeps a listener that is already registered for the type once.\<close>

definition on_event :: "nat \<Rightarrow> string \<Rightarrow> listener \<Rightarrow> World \<Rightarrow> World" where
  "on_event m ty f w =
     (let ls = listeners (maps w m) in
      if (ty, f) \<in> set ls then w
      else w\<lparr>maps := (maps w)(m := (maps w m)\<lparr>listeners := ls @ [(ty, f)]\<rparr>)\<rparr>)"

definition off_event :: "nat \<Rightarrow> string \<Rightarrow> listener \<Rightarrow> World \<Rightarrow> World" where
  "off_event m ty f w =
     w\<lparr>maps := (maps w)(m := (maps w m)
          \<lparr>listeners := filter (\<lambda>e. e \<noteq> (ty, f)) (listeners (maps w m))\<rparr>)\<rparr>"

definition setCenter :: "nat \<Rightarrow> World \<Rightarrow> World" where
  "setCenter m w =
     (let c = center (maps w m);
          w1 = w\<lparr>miniCenter := Some c\<rparr>;
          w2 = w1\<lparr>miniZoom := max 1 (min 7 (zoom (maps w1 m) - 2))\<rparr>
      in case miniMapRef w2 of
           None \<Rightarrow> w2
         | Some k \<Rightarrow> setView k c (max 1 (min 7 (zoom (maps w2 m) - 2))) w2)"

fun call :: "listener \<Rightarrow> World \<Rightarrow> World" where
  "call (SetCenter n m) w = setCenter m w"
| "call (Foreign n) w = w"

text \<open>The instance \<open>m\<close> raises the event \<open>ty\<close>: its listeners for \<open>ty\<close> run in order.\<close>

definition fire :: "nat \<Rightarrow> string \<Rightarrow> World \<Rightarrow> World" where
  "fire m ty w = fold (\<lambda>e. call (snd e)) (filter (\<lambda>e. fst e = ty) (listeners (maps w m))) w"

definition syncEffect :: "World \<Rightarrow> World" where
  "syncEffect w =
     (case mapState w of
        None \<Rightarrow> w\<lparr>syncCleanup := None\<rparr>
      | Some m \<Rightarrow>
          let f = SetCenter (nextClosure w) m;
              w0 = w\<lparr>nextClosure := Suc (nextClosure w)\<rparr>;
              w1 = setCenter m w0;
              w2 = on_event m ''move'' f w1;
              w3 = on_event m ''zoomend'' f w2
          in w3\<lparr>syncCleanup := Some (m, f)\<rparr>)"

definition runCleanup :: "World \<Rightarrow> World" where
  "runCleanup w =
     (case syncCleanup w of
        None \<Rightarrow> w
      | Some (m, f) \<Rightarrow> (off_event m ''zoomend'' f (off_event m ''move'' f w))\<lparr>syncCleanup := None\<rparr>)"

text \<open>
  What happens to the mounted component: the state \<open>map\<close> is set (the effect depends on
  it: the previous cleanup runs, then the effect), the component unmounts, an instance
  changes its viewport and raises an event, the overview instance is created.
\<close>

datatype event =
  SetMap "nat option" | Unmount | Gesture nat string "real \<times> real" int | MiniCreated nat

fun step :: "World \<Rightarrow> event \<Rightarrow> World" where
  "step w (SetMap mo) =
     (if \<not> mounted w \<or> mo = mapState w then w
      else syncEffect ((runCleanup w)\<lparr>mapState := mo\<rparr>))"
| "step w Unmount = (if mounted w then (runCleanup w)\<lparr>mounted := False\<rparr> else w)"
| "step w (Gesture m ty c z) =
     fire m ty (w\<lparr>maps := (maps w)(m := (maps w m)\<lparr>center := c, zoom := z\<rparr>)\<rparr>)"
| "step w (MiniCreated k) = (if mounted w then w\<lparr>miniMapRef := Some k\<rparr> else w)"

definition run :: "World \<Rightarrow> event list \<Rightarrow> World" where
  "run w evs = foldl step w evs"

text \<open>The component after its first render: \<open>map\<close> is null and the effect has run once.\<close>

definition mount :: "(nat \<Rightarrow> LeafletMap) \<Rightarrow> World" where
  "mount ms =
     syncEffect \<lparr>maps = ms, mounted = True, mapState = None, miniCenter = None, miniZoom = 3,
       miniMapRef = None, syncCleanup = None, nextClosure = 0\<rparr>"

text \<open>Whether a registered listener is one of the component's closures.\<close>

fun isSetCenter :: "string \<times> listener \<Rightarrow> bool" where
  "isSetCenter (ty, SetCenter n m) = True"
| "isSetCenter (ty, Foreign n) = False"

text \<open>The event types for which the component has a listener on the instance \<open>m\<close>.\<close>

definition subscriptions :: "World \<Rightarrow> nat \<Rightarrow> string list" where
  "subscriptions w m = map fst (filter isSetCenter (listeners (maps w m)))"

text \<open>A store in which the component has not registered anything yet.\<close>

definition foreignOnly :: "(nat \<Rightarrow> LeafletMap) \<Rightarrow> bool" where
  "foreignOnly ms = (\<forall>k. filter isSetCenter (listeners (ms k)) = [])"

text \<open>The clamp of the specification, in its words.\<close>

definition clamp :: "int \<Rightarrow> int \<Rightarrow> int \<Rightarrow> int" where
  "clamp x lo hi = (if x < lo then lo else if hi < x then hi else x)"

text \<open>A store for examples: every instance at zoom 6 with a listener of somebody else.\<close>

definition freshMaps :: "nat \<Rightarrow> LeafletMap" where
  "freshMaps k = \<lparr>center = (0, 0), zoom = 6, listeners = [(''click'', Foreign k)]\<rparr>"



text \<open>
  What the listeners of the component look like in every state the component reaches:
  none anywhere when no cleanup is pending, and otherwise exactly the two of the pending
  cleanup, on the instance held in \<open>map\<close>.
\<close>

definition sync_inv :: "World \<Rightarrow> bool" where
  "sync_inv w =
     (case syncCleanup w of
        None \<Rightarrow>
          (mounted w \<longrightarrow> mapState w = None) \<and>
          (\<forall>k. filter isSetCenter (listeners (maps w k)) = [])
      | Some (m, f) \<Rightarrow>
          mounted w \<and> mapState w = Some m \<and> (\<exists>n. f = SetCenter n m) \<and>
          filter isSetCenter (listeners (maps w m)) = [(''move'', f), (''zoomend'', f)] \<and>
          (\<forall>k. k \<noteq> m \<longrightarrow> filter isSetCenter (listeners (maps w k)) = []))"

text \<open>The part of the state that the listeners and the lifecycle depend on.\<close>

definition ctl :: "World \<Rightarrow> bool \<times> nat option \<times> (nat \<times> listener) option \<times> (nat \<Rightarrow> (string \<times> listener) list)" where
  "ctl w = (mounted w, mapState w, syncCleanup w, (\<lambda>k. listeners (maps w k)))"

section \<open>The legend overlay\<close>

text \<open>
  The legend controls that exist on map instances, each with its identity and the
  instance it was added to, outlive the component that created them. The effect of the
  component starts \<open>import("leaflet")\<close> and hands it a callback over the instance of
  that run; the callback runs when the import resolves, whatever has happened to the
  component since. The function \<open>() => legend.remove()\<close> is what the callback returns:
  it becomes the value of the promise, which nobody reads. The effect itself returns
  nothing, so the cleanup of an effect run is always absent.
\<close>

record LegendWorld =
  controls :: "(nat \<times> nat) list"
  pendingImports :: "nat list"
  promiseValues :: "nat list"
  legendMounted :: bool
  legendMap :: "nat option"
  legendCleanup :: "nat option"
  nextLegend :: nat

definition legendRemove :: "nat \<Rightarrow> LegendWorld \<Rightarrow> LegendWorld" where
  "legendRemove l w = w\<lparr>controls := filter (\<lambda>c. fst c \<noteq> l) (controls w)\<rparr>"

definition legendEffect :: "LegendWorld \<Rightarrow> LegendWorld" where
  "legendEffect w =
     (case legendMap w of
        None \<Rightarrow> w\<lparr>legendCleanup := None\<rparr>
      | Some m \<Rightarrow> w\<lparr>pendingImports := pendingImports w @ [m], legendCleanup := None\<rparr>)"

text \<open>The callback of \<open>then\<close>: a new control is added to the instance of its run.\<close>

definition importResolved :: "LegendWorld \<Rightarrow> LegendWorld" where
  "importResolved w =
     (case pendingImports w of
        [] \<Rightarrow> w
      | m # ps \<Rightarrow>
          w\<lparr>pendingImports := ps,
            controls := controls w @ [(nextLegend w, m)],
            promiseValues := promiseValues w @ [nextLegend w],
            nextLegend := Suc (nextLegend w)\<rparr>)"

definition legendRunCleanup :: "LegendWorld \<Rightarrow> LegendWorld" where
  "legendRunCleanup w =
     (case legendCleanup w of
        None \<Rightarrow> w
      | Some l \<Rightarrow> (legendRemove l w)\<lparr>legendCleanup := None\<rparr>)"

datatype legendEvent =
  LegendMount "nat option" | LegendSetMap "nat option" | LegendUnmount | ImportResolved

fun legendStep :: "LegendWorld \<Rightarrow> legendEvent \<Rightarrow> LegendWorld" where
  "legendStep w (LegendMount mo) =
     (if legendMounted w then w
      else legendEffect (w\<lparr>legendMounted := True, legendMap := mo\<rparr>))"
| "legendStep w (LegendSetMap mo) =
     (if \<not> legendMounted w \<or> mo = legendMap w then w
      else legendEffect ((legendRunCleanup w)\<lparr>legendMap := mo\<rparr>))"
| "legendStep w LegendUnmount =
     (if legendMounted w then (legendRunCleanup w)\<lparr>legendMounted := False\<rparr> else w)"
| "legendStep w ImportResolved = importResolved w"

definition legendRun :: "LegendWorld \<Rightarrow> legendEvent list \<Rightarrow> LegendWorld" where
  "legendRun w evs = foldl legendStep w evs"

definition noLegend :: LegendWorld where
  "noLegend = \<lparr>controls = [], pendingImports = [], promiseValues = [], legendMounted = False,
     legendMap = None, legendCleanup = None, nextLegend = 0\<rparr>"

section \<open>Loading the directory and rendering the markers\<close>

text \<open>
  The body of the response is whatever JSON the data source sent, and the component
  stores \<open>data.locations || []\<close> without looking at it. So the stored directory is a
  JSON value: the list of locations when the data source keeps its contract, and any
  other truthy value when it does not.
\<close>

datatype json =
  JsonNull | JsonBool bool | JsonNum real | JsonStr string | JsonArr "json list"
| JsonObj "(string \<times> json) list"

text \<open>
  Reading a data property of a value that is not null: an object has its own
  properties, every other value has none of the names read here (\<open>locations\<close>,
  \<open>lat\<close>, \<open>lon\<close>, \<open>aqi\<close>, \<open>name\<close>, \<open>condition\<close>). \<open>None\<close> is \<open>undefined\<close>.
\<close>

fun field :: "json \<Rightarrow> string \<Rightarrow> json option" where
  "field (JsonObj kvs) k = map_of kvs k"
| "field v k = None"

text \<open>\<open>v.length\<close> and \<open>v[0]\<close> of a value that is not null.\<close>

fun lengthOf :: "json \<Rightarrow> json option" where
  "lengthOf (JsonArr xs) = Some (JsonNum (real (length xs)))"
| "lengthOf (JsonStr s) = Some (JsonNum (real (length s)))"
| "lengthOf (JsonObj kvs) = map_of kvs ''length''"
| "lengthOf v = None"

fun elem0 :: "json \<Rightarrow> json option" where
  "elem0 (JsonArr xs) = (case xs of [] \<Rightarrow> None | x # rest \<Rightarrow> Some x)"
| "elem0 (JsonStr s) = (case s of [] \<Rightarrow> None | c # rest \<Rightarrow> Some (JsonStr [c]))"
| "elem0 (JsonObj kvs) = map_of kvs ''0''"
| "elem0 v = None"

text \<open>Truthiness of a value or of \<open>undefined\<close>.\<close>

fun truthy :: "json option \<Rightarrow> bool" where
  "truthy None = False"
| "truthy (Some JsonNull) = False"
| "truthy (Some (JsonBool b)) = b"
| "truthy (Some (JsonNum x)) = (x \<noteq> 0)"
| "truthy (Some (JsonStr s)) = (s \<noteq> [])"
| "truthy (Some (JsonArr xs)) = True"
| "truthy (Some (JsonObj kvs)) = True"

text \<open>
  How \<open>fetchAirQuality()\<close> settles: rejected with an error, fulfilled with no body
  (\<open>undefined\<close>), or fulfilled with a JSON body.
\<close>

datatype fetchOutcome = Rejected string | ResolvedNoBody | Resolved json

datatype settled = Fulfilled | RejectedWith string

record Directory =
  locations :: json
  loading :: bool
  leafletLoaded :: bool
  console :: "string list"

text \<open>
  \<open>.then(data => setLocations(data.locations || []))\<close>: skipped by a rejection; reading
  \<open>locations\<close> of \<open>undefined\<close> or \<open>null\<close> is a TypeError, which rejects the promise.
\<close>

definition thenStep :: "fetchOutcome \<Rightarrow> Directory \<Rightarrow> settled \<times> Directory" where
  "thenStep r d =
     (case r of
        Rejected e \<Rightarrow> (RejectedWith e, d)
      | ResolvedNoBody \<Rightarrow> (RejectedWith ''TypeError'', d)
      | Resolved data \<Rightarrow>
          if data = JsonNull then (RejectedWith ''TypeError'', d)
          else
            (case field data ''locations'' of
               None \<Rightarrow> (Fulfilled, d\<lparr>locations := JsonArr []\<rparr>)
             | Some v \<Rightarrow>
                 if truthy (Some v) then (Fulfilled, d\<lparr>locations := v\<rparr>)
                 else (Fulfilled, d\<lparr>locations := JsonArr []\<rparr>)))"

text \<open>\<open>.catch(err => console.error(err))\<close>\<close>

definition catchStep :: "settled \<times> Directory \<Rightarrow> settled \<times> Directory" where
  "catchStep p =
     (case fst p of
        Fulfilled \<Rightarrow> p
      | RejectedWith e \<Rightarrow> (Fulfilled, (snd p)\<lparr>console := console (snd p) @ [e]\<rparr>))"

text \<open>\<open>.finally(() => setLoading(false))\<close>\<close>

definition finallyStep :: "settled \<times> Directory \<Rightarrow> settled \<times> Directory" where
  "finallyStep p = (fst p, (snd p)\<lparr>loading := False\<rparr>)"

definition loadEffect :: "fetchOutcome \<Rightarrow> Directory \<Rightarrow> settled \<times> Directory" where
  "loadEffect r d = finallyStep (catchStep (thenStep r d))"

text \<open>
  A marker as the component builds it from one element \<open>loc\<close> of the directory: the
  position \<open>[loc.lat, loc.lon]\<close>, the value \<open>loc.aqi\<close> that the icon shows (on the
  background \<open>getColor(loc.aqi)\<close>), the name and the condition of the popup, and the
  element that a click hands to \<open>onSelect\<close> when the host supplied that callback.
  What the map library and the renderer do with the values they are given is theirs.
\<close>

record marker =
  position :: "json option \<times> json option"
  iconAqi :: "json option"
  popupName :: "json option"
  popupCondition :: "json option"
  clickSelects :: "json option"

definition mkMarker :: "bool \<Rightarrow> json \<Rightarrow> marker" where
  "mkMarker onSelect loc =
     \<lparr>position = (field loc ''lat'', field loc ''lon''), iconAqi = field loc ''aqi'',
      popupName = field loc ''name'', popupCondition = field loc ''condition'',
      clickSelects = (if onSelect then Some loc else None)\<rparr>"

datatype renderError = TypeError

datatype view = LoadingView | NoDataView | MapView "json option \<times> json option" "marker list"

text \<open>
  The render of the component. \<open>locations[0].lat\<close> raises a TypeError when the first
  element is \<open>undefined\<close> or \<open>null\<close>; \<open>locations.map\<close> is evaluated only once the map
  library is loaded, it exists on arrays only, and its callback reads \<open>loc.aqi\<close>, which
  raises on a \<open>null\<close> element. An error raised here is raised to the host.
\<close>

definition render :: "bool \<Rightarrow> Directory \<Rightarrow> renderError + view" where
  "render onSelect d =
     (if loading d then Inr LoadingView
      else if \<not> truthy (lengthOf (locations d)) then Inr NoDataView
      else
        (case elem0 (locations d) of
           None \<Rightarrow> Inl TypeError
         | Some l0 \<Rightarrow>
             if l0 = JsonNull then Inl TypeError
             else
               let center = (field l0 ''lat'', field l0 ''lon'') in
               if \<not> leafletLoaded d then Inr (MapView center [])
               else
                 (case locations d of
                    JsonArr locs \<Rightarrow>
                      if JsonNull \<in> set locs then Inl TypeError
                      else Inr (MapView center (map (mkMarker onSelect) locs))
                  | other \<Rightarrow> Inl TypeError)))"

fun markersOf :: "view \<Rightarrow> marker list" where
  "markersOf LoadingView = []"
| "markersOf NoDataView = []"
| "markersOf (MapView c ms) = ms"

definition initialDirectory :: Directory where
  "initialDirectory =
     \<lparr>locations = JsonArr [], loading = True, leafletLoaded = False, console = []\<rparr>"

text \<open>The location New Delhi of the example as the data source sends it.\<close>

definition newDelhiJson :: json where
  "newDelhiJson =
     JsonObj [(''name'', JsonStr ''New Delhi''), (''lat'', JsonNum 28.6), (''lon'', JsonNum 77.2),
       (''aqi'', JsonNum 180), (''condition'', JsonStr ''Unhealthy'')]"

section \<open>Verified properties\<close>

subsection \<open>The classifier on integers\<close>

text \<open>
  Claim C2. On every integer AQI the classifier returns green exactly up to 50, yellow
  exactly from 51 to 100, orange exactly from 101 to 150, red exactly from 151 to 200,
  purple exactly from 201 to 300 and maroon exactly above 300. The classifier is a
  function of its argument alone, so it is total and deterministic and has no effect.
\<close>

theorem getColor_integer_bands:
  "(getColor (intAqi n) = ''green'') = (n \<le> 50) \<and>
   (getColor (intAqi n) = ''yellow'') = (50 < n \<and> n \<le> 100) \<and>
   (getColor (intAqi n) = ''orange'') = (100 < n \<and> n \<le> 150) \<and>
   (getColor (intAqi n) = ''red'') = (150 < n \<and> n \<le> 200) \<and>
   (getColor (intAqi n) = ''purple'') = (200 < n \<and> n \<le> 300) \<and>
   (getColor (intAqi n) = ''maroon'') = (300 < n)"
  by (simp add: getColor_def js_le_def intAqi_def)

theorem getColor_integer_bands_witness:
  "getColor (intAqi 50) = ''green'' \<and> getColor (intAqi 51) = ''yellow'' \<and>
   getColor (intAqi 150) = ''orange'' \<and> getColor (intAqi 200) = ''red'' \<and>
   getColor (intAqi 300) = ''purple'' \<and> getColor (intAqi 301) = ''maroon''"
  using getColor_integer_bands [of 50] getColor_integer_bands [of 51]
    getColor_integer_bands [of 150] getColor_integer_bands [of 200]
    getColor_integer_bands [of 300] getColor_integer_bands [of 301]
  by simp

subsection \<open>Monotonicity\<close>

lemma getColor_num_cases:
  "getColor (JNum a) =
     (if num_le a (Fin 50) then ''green''
      else if num_le a (Fin 100) then ''yellow''
      else if num_le a (Fin 150) then ''orange''
      else if num_le a (Fin 200) then ''red''
      else if num_le a (Fin 300) then ''purple''
      else ''maroon'')"
  by (simp add: getColor_def js_le_def)

lemma num_le_below:
  "num_less a b \<Longrightarrow> num_le b (Fin k) \<Longrightarrow> num_le a (Fin k)"
  by (cases a; cases b) auto

text \<open>
  Claim C3. For numbers \<open>a < b\<close> the band of \<open>a\<close> is not more severe than the band of
  \<open>b\<close>, in the order Good, Moderate, SensitiveUnhealthy, Unhealthy, VeryUnhealthy,
  Hazardous. The numbers range over all JavaScript numbers, the infinities included.
\<close>

theorem getColor_monotone:
  assumes "num_less a b"
  shows "\<exists>ba bb. bandOfColor (getColor (JNum a)) = Some ba \<and>
           bandOfColor (getColor (JNum b)) = Some bb \<and> severity ba \<le> severity bb"
proof -
  have below: "\<And>k. num_le b (Fin k) \<Longrightarrow> num_le a (Fin k)"
    using assms by (rule num_le_below)
  show ?thesis
    unfolding getColor_num_cases bandOfColor_def legend_def
    using below by auto
qed

theorem getColor_monotone_witness:
  "num_less (Fin 50) (Fin 51) \<and>
   (\<exists>ba bb. bandOfColor (getColor (JNum (Fin 50))) = Some ba \<and>
      bandOfColor (getColor (JNum (Fin 51))) = Some bb \<and> severity ba \<le> severity bb)"
  using getColor_monotone [of "Fin 50" "Fin 51"] by simp

subsection \<open>Missing and non-numeric values\<close>

lemma StringToNumber_blank: "trim s = [] \<Longrightarrow> StringToNumber s = Fin 0"
  by (simp add: StringToNumber_def)

text \<open>
  Claim C4, as stated, fails: \<open>null\<close> is a missing value, it converts to 0, and the
  classifier answers green for it, not maroon.
\<close>

theorem getColor_null_counterexample:
  "getColor JNull \<noteq> ''maroon''"
  by (simp add: getColor_def js_le_def)

text \<open>
  Claim C4, amended. The classifier returns maroon for \<open>undefined\<close>, for NaN and for
  every string whose conversion to a number is NaN; \<open>null\<close> and every empty or blank
  string convert to 0 and are coloured green; on every primitive value the result is
  one of the six legend colours.
\<close>

theorem getColor_missing_values:
  "getColor JUndefined = ''maroon'' \<and>
   getColor (JNum NaN) = ''maroon'' \<and>
   (StringToNumber s = NaN \<longrightarrow> getColor (JStr s) = ''maroon'') \<and>
   getColor JNull = ''green'' \<and>
   (trim s = [] \<longrightarrow> getColor (JStr s) = ''green'') \<and>
   getColor v \<in> set (map fst legend)"
  by (simp add: getColor_def js_le_def legend_def StringToNumber_blank)

theorem getColor_missing_values_witness:
  "StringToNumber ''N/A'' = NaN \<and> getColor (JStr ''N/A'') = ''maroon'' \<and>
   trim '' '' = [] \<and> getColor (JStr '' '') = ''green''"
proof -
  have a: "StringToNumber ''N/A'' = NaN" by code_simp
  have b: "trim '' '' = []" by code_simp
  from getColor_missing_values [of "''N/A''" JNull] a
  have c: "getColor (JStr ''N/A'') = ''maroon''" by blast
  from getColor_missing_values [of "'' ''" JNull] b
  have d: "getColor (JStr '' '') = ''green''" by blast
  from a b c d show ?thesis by blast
qed

subsection \<open>Search\<close>

lemma startsWith_iff: "startsWith s q = (\<exists>post. s = q @ post)"
  by (induction s q rule: startsWith.induct) auto

lemma includes_iff: "includes_str s q = (\<exists>pre post. s = pre @ q @ post)"
proof (induction s)
  case Nil
  then show ?case by simp
next
  case (Cons c cs)
  show ?case
  proof
    assume "includes_str (c # cs) q"
    then consider "startsWith (c # cs) q" | "includes_str cs q" by auto
    then show "\<exists>pre post. c # cs = pre @ q @ post"
    proof cases
      case 1
      then obtain post where "c # cs = q @ post" by (auto simp: startsWith_iff)
      then have "c # cs = [] @ q @ post" by simp
      then show ?thesis by blast
    next
      case 2
      then obtain pre post where "cs = pre @ q @ post" using Cons.IH by auto
      then have "c # cs = (c # pre) @ q @ post" by simp
      then show ?thesis by blast
    qed
  next
    assume "\<exists>pre post. c # cs = pre @ q @ post"
    then obtain pre post where e: "c # cs = pre @ q @ post" by blast
    show "includes_str (c # cs) q"
    proof (cases pre)
      case Nil
      with e have "startsWith (c # cs) q" by (auto simp: startsWith_iff)
      then show ?thesis by simp
    next
      case (Cons p ps)
      with e have "cs = ps @ q @ post" by simp
      then have "includes_str cs q" using Cons.IH by blast
      then show ?thesis by simp
    qed
  qed
qed

lemma strOr_empty [simp]: "strOr s [] = s"
  by (simp add: strOr_def)

lemma matches_nameContains:
  "includes_str (toLowerCase (orEmpty (name l))) (toLowerCase (trim search)) = nameContains search l"
  by (simp add: includes_iff nameContains_def)

lemma find_first_index:
  assumes "i < length xs" "P (xs ! i)" "\<forall>j<i. \<not> P (xs ! j)"
  shows "List.find P xs = Some (xs ! i)"
  using assms by (auto simp: find_Some_iff)


lemma handleSearch_blank:
  "trim search = [] \<Longrightarrow> handleSearch onSelect mapInst locs search = []"
  by (simp add: handleSearch_def)

lemma handleSearch_found:
  assumes "trim search \<noteq> []"
    and "List.find (nameContains search) locs = Some l"
  shows "handleSearch onSelect (Some m) locs search =
           FlyTo m (lat l, lon l) 8 True # notify onSelect l"
    and "handleSearch onSelect None locs search = []"
  using assms by (simp_all add: handleSearch_def Let_def matches_nameContains)

lemma nameContains_newDelhi: "nameContains ''delhi'' newDelhi"
proof -
  have "includes_str (toLowerCase (orEmpty (name newDelhi))) (toLowerCase (trim ''delhi''))"
    by code_simp
  then show ?thesis by (simp only: matches_nameContains)
qed

lemma nameContains_delhiHeights: "nameContains ''delhi'' delhiHeights"
proof -
  have "includes_str (toLowerCase (orEmpty (name delhiHeights))) (toLowerCase (trim ''delhi''))"
    by code_simp
  then show ?thesis by (simp only: matches_nameContains)
qed

lemma trim_delhi: "trim ''delhi'' \<noteq> []"
  by code_simp

text \<open>
  Claim C5. A query whose trimmed form is empty does nothing. Otherwise, with a primary
  map instance \<open>m\<close>, the location at the first index whose case-folded name contains
  the case-folded trimmed query is selected: the map is told to fly to its coordinates
  at zoom 8, animated, and then the selection emitter is invoked with that location
  (which calls the host's callback with it). With New Delhi before Delhi Heights the
  query delhi selects New Delhi.
\<close>

theorem handleSearch_first_match:
  "(trim search = [] \<longrightarrow> handleSearch onSelect mapInst locs search = []) \<and>
   (trim search \<noteq> [] \<and> i < length locs \<and> nameContains search (locs ! i) \<and>
    (\<forall>j<i. \<not> nameContains search (locs ! j)) \<longrightarrow>
      handleSearch onSelect (Some m) locs search =
        FlyTo m (lat (locs ! i), lon (locs ! i)) 8 True # notify onSelect (locs ! i) \<and>
      handleSearch True (Some m) locs search =
        [FlyTo m (lat (locs ! i), lon (locs ! i)) 8 True, OnSelect (locs ! i)]) \<and>
   handleSearch True (Some m) [newDelhi, delhiHeights] ''delhi'' =
     [FlyTo m (lat newDelhi, lon newDelhi) 8 True, OnSelect newDelhi]"
proof (intro conjI impI)
  assume "trim search = []"
  then show "handleSearch onSelect mapInst locs search = []"
    by (rule handleSearch_blank)
next
  assume a: "trim search \<noteq> [] \<and> i < length locs \<and> nameContains search (locs ! i) \<and>
    (\<forall>j<i. \<not> nameContains search (locs ! j))"
  then have f: "List.find (nameContains search) locs = Some (locs ! i)"
    by (intro find_first_index) auto
  from a f show "handleSearch onSelect (Some m) locs search =
        FlyTo m (lat (locs ! i), lon (locs ! i)) 8 True # notify onSelect (locs ! i)"
    by (simp add: handleSearch_found)
  from a f show "handleSearch True (Some m) locs search =
        [FlyTo m (lat (locs ! i), lon (locs ! i)) 8 True, OnSelect (locs ! i)]"
    by (simp add: handleSearch_found notify_def)
next
  have "List.find (nameContains ''delhi'') [newDelhi, delhiHeights] = Some newDelhi"
    by (simp add: nameContains_newDelhi)
  then show "handleSearch True (Some m) [newDelhi, delhiHeights] ''delhi'' =
     [FlyTo m (lat newDelhi, lon newDelhi) 8 True, OnSelect newDelhi]"
    using trim_delhi by (simp add: handleSearch_found notify_def)
qed

theorem handleSearch_first_match_witness:
  "trim ''delhi'' \<noteq> [] \<and> (0::nat) < length [newDelhi, delhiHeights] \<and>
   nameContains ''delhi'' ([newDelhi, delhiHeights] ! 0) \<and>
   nameContains ''delhi'' ([newDelhi, delhiHeights] ! 1) \<and>
   handleSearch True (Some 0) [newDelhi, delhiHeights] ''delhi'' =
     [FlyTo 0 (lat newDelhi, lon newDelhi) 8 True, OnSelect newDelhi] \<and>
   trim ''  '' = [] \<and> handleSearch True (Some 0) [newDelhi, delhiHeights] ''  '' = []"
proof -
  have b: "trim ''  '' = []" by code_simp
  have h: "trim ''delhi'' \<noteq> [] \<and> (0::nat) < length [newDelhi, delhiHeights] \<and>
    nameContains ''delhi'' ([newDelhi, delhiHeights] ! 0) \<and>
    (\<forall>j<0. \<not> nameContains ''delhi'' ([newDelhi, delhiHeights] ! j))"
    using trim_delhi nameContains_newDelhi by simp
  from handleSearch_first_match [of "''delhi''" True "Some 0" "[newDelhi, delhiHeights]" 0 0] h
  have r: "handleSearch True (Some 0) [newDelhi, delhiHeights] ''delhi'' =
     [FlyTo 0 (lat ([newDelhi, delhiHeights] ! 0), lon ([newDelhi, delhiHeights] ! 0)) 8 True,
      OnSelect ([newDelhi, delhiHeights] ! 0)]"
    by blast
  from handleSearch_first_match [of "''  ''" True "Some 0" "[newDelhi, delhiHeights]" 0 0] b
  have e: "handleSearch True (Some 0) [newDelhi, delhiHeights] ''  '' = []"
    by blast
  from b h r e nameContains_delhiHeights show ?thesis by simp
qed

text \<open>
  Claim C10. When the query is not blank and some location matches it, a search without
  a primary map instance issues no command at all: no navigation and no selection,
  although the same search with an instance issues some. The handler returns commands
  only and keeps no state, so nothing is queued.
\<close>

theorem handleSearch_without_map:
  assumes "trim search \<noteq> []" and "l \<in> set locs" and "nameContains search l"
  shows "handleSearch onSelect None locs search = [] \<and>
         handleSearch onSelect (Some m) locs search \<noteq> []"
proof -
  from assms(2,3) obtain l' where "List.find (nameContains search) locs = Some l'"
    by (cases "List.find (nameContains search) locs") (auto simp: find_None_iff)
  with assms(1) show ?thesis
    by (simp add: handleSearch_found)
qed

theorem handleSearch_without_map_witness:
  "trim ''delhi'' \<noteq> [] \<and> newDelhi \<in> set [newDelhi, delhiHeights] \<and>
   nameContains ''delhi'' newDelhi \<and>
   handleSearch True None [newDelhi, delhiHeights] ''delhi'' = [] \<and>
   handleSearch True (Some 0) [newDelhi, delhiHeights] ''delhi'' \<noteq> []"
proof -
  have m: "newDelhi \<in> set [newDelhi, delhiHeights]" by simp
  from handleSearch_without_map [OF trim_delhi m nameContains_newDelhi, of True 0]
  show ?thesis using trim_delhi m nameContains_newDelhi by blast
qed

subsection \<open>The listeners of the synchronizer\<close>

lemma ctl_setCenter: "ctl (setCenter m w) = ctl w"
  by (auto simp: ctl_def setCenter_def setView_def Let_def fun_eq_iff split: option.splits)

lemma ctl_call: "ctl (call f w) = ctl w"
  by (cases f) (simp_all add: ctl_setCenter)

lemma ctl_fold_call: "ctl (fold (\<lambda>e. call (snd e)) es w) = ctl w"
  by (induction es arbitrary: w) (simp_all add: ctl_call)

lemma ctl_fire: "ctl (fire m ty w) = ctl w"
  by (simp add: fire_def ctl_fold_call)

lemma sync_inv_ctl: "ctl w' = ctl w \<Longrightarrow> sync_inv w' = sync_inv w"
  by (auto simp: ctl_def sync_inv_def fun_eq_iff split: option.splits)

lemma ctl_viewport:
  "ctl (w\<lparr>maps := (maps w)(m := (maps w m)\<lparr>center := c, zoom := z\<rparr>)\<rparr>) = ctl w"
  by (simp add: ctl_def fun_eq_iff)

lemma fold_call_ours:
  "fold (\<lambda>e. call (snd e)) es w = fold (\<lambda>e. call (snd e)) (filter isSetCenter es) w"
proof (induction es arbitrary: w)
  case Nil
  then show ?case by simp
next
  case (Cons e es)
  obtain ty f where e: "e = (ty, f)" by (cases e)
  show ?case using Cons.IH by (cases f) (simp_all add: e)
qed

lemma filter_type_ours:
  "filter isSetCenter (filter P ls) = filter P (filter isSetCenter ls)"
  by (induction ls) auto

lemma fire_ours:
  "fire m ty w =
     fold (\<lambda>e. call (snd e)) (filter (\<lambda>e. fst e = ty) (filter isSetCenter (listeners (maps w m)))) w"
  unfolding fire_def by (subst fold_call_ours) (simp only: filter_type_ours)

lemma runCleanup_clears:
  assumes "sync_inv w"
  shows "syncCleanup (runCleanup w) = None"
    and "filter isSetCenter (listeners (maps (runCleanup w) k)) = []"
    and "mounted (runCleanup w) = mounted w"
    and "mapState (runCleanup w) = mapState w"
proof -
  show "syncCleanup (runCleanup w) = None"
    by (simp add: runCleanup_def split: option.splits)
  show "mounted (runCleanup w) = mounted w"
    by (simp add: runCleanup_def off_event_def split: option.splits)
  show "mapState (runCleanup w) = mapState w"
    by (simp add: runCleanup_def off_event_def split: option.splits)
  show "filter isSetCenter (listeners (maps (runCleanup w) k)) = []"
  proof (cases "syncCleanup w")
    case None
    with assms show ?thesis by (simp add: runCleanup_def sync_inv_def)
  next
    case (Some p)
    obtain m f where p: "p = (m, f)" by (cases p)
    from assms Some p
    have a: "filter isSetCenter (listeners (maps w m)) = [(''move'', f), (''zoomend'', f)]"
      and b: "\<And>j. j \<noteq> m \<Longrightarrow> filter isSetCenter (listeners (maps w j)) = []"
      by (simp_all add: sync_inv_def)
    show ?thesis
    proof (cases "k = m")
      case True
      have "filter isSetCenter (listeners (maps (runCleanup w) m)) =
            filter (\<lambda>e. e \<noteq> (''zoomend'', f))
              (filter (\<lambda>e. e \<noteq> (''move'', f)) (filter isSetCenter (listeners (maps w m))))"
        by (simp add: runCleanup_def Some p off_event_def del: filter_filter)
          (simp only: filter_type_ours)
      also have "\<dots> = []" by (simp add: a)
      finally show ?thesis using True by simp
    next
      case False
      then show ?thesis using b [of k]
        by (simp add: runCleanup_def Some p off_event_def)
    qed
  qed
qed

lemma listeners_setCenter: "listeners (maps (setCenter m w) k) = listeners (maps w k)"
  using ctl_setCenter [of m w] by (simp add: ctl_def fun_eq_iff)

lemma on_event_fields:
  "mounted (on_event m ty f w) = mounted w"
  "mapState (on_event m ty f w) = mapState w"
  by (simp_all add: on_event_def Let_def)

lemma on_event_new:
  "(ty, f) \<notin> set (listeners (maps w m)) \<Longrightarrow>
   listeners (maps (on_event m ty f w) k) =
     (if k = m then listeners (maps w m) @ [(ty, f)] else listeners (maps w k))"
  by (simp add: on_event_def Let_def)

lemma syncEffect_inv:
  assumes "mounted w" and "\<And>k. filter isSetCenter (listeners (maps w k)) = []"
  shows "sync_inv (syncEffect w)"
proof (cases "mapState w")
  case None
  with assms show ?thesis by (simp add: syncEffect_def sync_inv_def)
next
  case (Some m)
  define f where "f = SetCenter (nextClosure w) m"
  define w1 where "w1 = setCenter m (w\<lparr>nextClosure := Suc (nextClosure w)\<rparr>)"
  define w2 where "w2 = on_event m ''move'' f w1"
  define w3 where "w3 = on_event m ''zoomend'' f w2"
  have l1: "\<And>k. listeners (maps w1 k) = listeners (maps w k)"
    by (simp add: w1_def listeners_setCenter)
  have nf: "\<And>ty. (ty, f) \<notin> set (listeners (maps w m))"
  proof
    fix ty assume "(ty, f) \<in> set (listeners (maps w m))"
    then have "(ty, f) \<in> set (filter isSetCenter (listeners (maps w m)))"
      by (simp add: f_def)
    with assms(2) show False by simp
  qed
  have l2: "\<And>k. listeners (maps w2 k) =
      (if k = m then listeners (maps w m) @ [(''move'', f)] else listeners (maps w k))"
    unfolding w2_def using nf by (simp add: on_event_new l1)
  have n3: "(''zoomend'', f) \<notin> set (listeners (maps w2 m))"
    using nf by (simp add: l2)
  have l3: "\<And>k. listeners (maps w3 k) =
      (if k = m then listeners (maps w m) @ [(''move'', f), (''zoomend'', f)]
       else listeners (maps w k))"
    unfolding w3_def using n3 by (simp add: on_event_new l2)
  have c1: "mounted w1 = mounted w" "mapState w1 = mapState w"
    using ctl_setCenter [of m "w\<lparr>nextClosure := Suc (nextClosure w)\<rparr>"]
    by (simp_all add: w1_def ctl_def)
  have c3: "mounted w3" "mapState w3 = Some m"
    using c1 assms(1) Some by (simp_all add: w3_def w2_def on_event_fields)
  have se: "syncEffect w = w3\<lparr>syncCleanup := Some (m, f)\<rparr>"
    by (simp add: syncEffect_def Some Let_def f_def w1_def w2_def w3_def)
  have f3: "filter isSetCenter (listeners (maps w3 m)) = [(''move'', f), (''zoomend'', f)]"
    using assms(2) [of m] by (simp add: l3 f_def)
  have o3: "\<And>k. k \<noteq> m \<Longrightarrow> filter isSetCenter (listeners (maps w3 k)) = []"
    using assms(2) by (simp add: l3)
  show ?thesis
    unfolding se sync_inv_def using c3 f3 o3 by (simp add: f_def)
qed

lemma step_inv_SetMap:
  assumes i: "sync_inv w"
  shows "sync_inv (step w (SetMap mo))"
proof (cases "\<not> mounted w \<or> mo = mapState w")
  case True
  then have "step w (SetMap mo) = w" by simp
  with i show ?thesis by simp
next
  case False
  define v where "v = (runCleanup w)\<lparr>mapState := mo\<rparr>"
  have m: "mounted v"
    using False runCleanup_clears(3) [OF i] by (simp add: v_def)
  have l: "\<And>k. filter isSetCenter (listeners (maps v k)) = []"
    using runCleanup_clears(2) [OF i] by (simp add: v_def)
  have e: "step w (SetMap mo) = syncEffect v"
    using False by (simp add: v_def)
  show ?thesis
    unfolding e using m l by (rule syncEffect_inv)
qed

lemma step_inv_Unmount:
  assumes i: "sync_inv w"
  shows "sync_inv (step w Unmount)"
proof (cases "mounted w")
  case True
  have a: "syncCleanup (runCleanup w) = None"
    by (rule runCleanup_clears(1) [OF i])
  have b: "\<And>k. filter isSetCenter (listeners (maps (runCleanup w) k)) = []"
    by (rule runCleanup_clears(2) [OF i])
  have "sync_inv ((runCleanup w)\<lparr>mounted := False\<rparr>)"
    by (simp add: sync_inv_def a b)
  with True show ?thesis by simp
next
  case False
  with i show ?thesis by simp
qed

lemma step_inv_Gesture:
  assumes i: "sync_inv w"
  shows "sync_inv (step w (Gesture m ty c z))"
proof -
  have "ctl (step w (Gesture m ty c z)) = ctl w"
    by (simp only: step.simps ctl_fire ctl_viewport)
  from sync_inv_ctl [OF this] i show ?thesis by blast
qed

lemma step_inv_MiniCreated:
  assumes i: "sync_inv w"
  shows "sync_inv (step w (MiniCreated k))"
proof -
  have "ctl (step w (MiniCreated k)) = ctl w"
    by (simp add: ctl_def)
  from sync_inv_ctl [OF this] i show ?thesis by blast
qed

lemma step_inv: "sync_inv w \<Longrightarrow> sync_inv (step w ev)"
  by (cases ev)
    (simp_all only: step_inv_SetMap step_inv_Unmount step_inv_Gesture step_inv_MiniCreated)

lemma run_inv: "sync_inv w \<Longrightarrow> sync_inv (run w evs)"
  unfolding run_def by (induction evs arbitrary: w) (simp_all add: step_inv)

lemma mount_inv: "foreignOnly ms \<Longrightarrow> sync_inv (mount ms)"
  unfolding mount_def by (rule syncEffect_inv) (simp_all add: foreignOnly_def)

lemma reachable_inv: "foreignOnly ms \<Longrightarrow> sync_inv (run (mount ms) evs)"
  by (simp add: run_inv mount_inv)



lemma ours_current:
  assumes "sync_inv w" and "mounted w" and "mapState w = Some m"
  shows "\<exists>n. filter isSetCenter (listeners (maps w m)) =
           [(''move'', SetCenter n m), (''zoomend'', SetCenter n m)]"
proof (cases "syncCleanup w")
  case None
  with assms show ?thesis by (simp add: sync_inv_def)
next
  case (Some p)
  obtain m' f where p: "p = (m', f)" by (cases p)
  from assms Some p show ?thesis by (auto simp: sync_inv_def)
qed

lemma ours_other:
  assumes "sync_inv w" and "\<not> mounted w \<or> mapState w \<noteq> Some m"
  shows "filter isSetCenter (listeners (maps w m)) = []"
proof (cases "syncCleanup w")
  case None
  with assms show ?thesis by (simp add: sync_inv_def)
next
  case (Some p)
  obtain m' f where p: "p = (m', f)" by (cases p)
  from assms Some p show ?thesis by (auto simp: sync_inv_def)
qed

lemma fire_current:
  assumes "sync_inv w" and "mounted w" and "mapState w = Some m"
  shows "fire m ty w = (if ty = ''move'' \<or> ty = ''zoomend'' then setCenter m w else w)"
proof -
  from ours_current [OF assms] obtain n where
    "filter isSetCenter (listeners (maps w m)) =
       [(''move'', SetCenter n m), (''zoomend'', SetCenter n m)]" ..
  then show ?thesis by (simp add: fire_ours)
qed

lemma fire_other:
  assumes "sync_inv w" and "\<not> mounted w \<or> mapState w \<noteq> Some m"
  shows "fire m ty w = w"
  by (simp add: fire_ours ours_other [OF assms])

lemma viewport_inv:
  assumes "sync_inv w"
  shows "sync_inv (w\<lparr>maps := (maps w)(m := (maps w m)\<lparr>center := c, zoom := z\<rparr>)\<rparr>)"
  using sync_inv_ctl [OF ctl_viewport] assms by blast

lemma gesture_current:
  assumes "sync_inv w" and "mounted w" and "mapState w = Some m"
  shows "step w (Gesture m ty c z) =
     (if ty = ''move'' \<or> ty = ''zoomend''
      then setCenter m (w\<lparr>maps := (maps w)(m := (maps w m)\<lparr>center := c, zoom := z\<rparr>)\<rparr>)
      else w\<lparr>maps := (maps w)(m := (maps w m)\<lparr>center := c, zoom := z\<rparr>)\<rparr>)"
proof -
  define v where "v = w\<lparr>maps := (maps w)(m := (maps w m)\<lparr>center := c, zoom := z\<rparr>)\<rparr>"
  have i: "sync_inv v" unfolding v_def using assms(1) by (rule viewport_inv)
  have a: "mounted v" "mapState v = Some m" using assms by (simp_all add: v_def)
  have "step w (Gesture m ty c z) = fire m ty v" by (simp add: v_def)
  also have "\<dots> = (if ty = ''move'' \<or> ty = ''zoomend'' then setCenter m v else v)"
    using i a by (rule fire_current)
  finally show ?thesis by (simp only: v_def)
qed

lemma gesture_other:
  assumes "sync_inv w" and "\<not> mounted w \<or> mapState w \<noteq> Some m"
  shows "step w (Gesture m ty c z) =
     w\<lparr>maps := (maps w)(m := (maps w m)\<lparr>center := c, zoom := z\<rparr>)\<rparr>"
proof -
  define v where "v = w\<lparr>maps := (maps w)(m := (maps w m)\<lparr>center := c, zoom := z\<rparr>)\<rparr>"
  have i: "sync_inv v" unfolding v_def using assms(1) by (rule viewport_inv)
  have a: "\<not> mounted v \<or> mapState v \<noteq> Some m" using assms(2) by (simp add: v_def)
  have "step w (Gesture m ty c z) = fire m ty v" by (simp add: v_def)
  also have "\<dots> = v" using i a by (rule fire_other)
  finally show ?thesis by (simp only: v_def)
qed

lemma setCenter_overview:
  "miniCenter (setCenter m w) = Some (center (maps w m))"
  "miniZoom (setCenter m w) = max 1 (min 7 (zoom (maps w m) - 2))"
  "miniMapRef w = Some k \<Longrightarrow> center (maps (setCenter m w) k) = center (maps w m)"
  "miniMapRef w = Some k \<Longrightarrow> zoom (maps (setCenter m w) k) = max 1 (min 7 (zoom (maps w m) - 2))"
  by (simp_all add: setCenter_def setView_def Let_def split: option.splits)

lemma clamp_max_min: "max 1 (min 7 x) = clamp x 1 7"
  by (simp add: clamp_def max_def min_def)

lemma step_unmounted: "\<not> mounted w \<Longrightarrow> \<not> mounted (step w ev)"
proof (cases ev)
  case (Gesture m ty c z)
  assume a: "\<not> mounted w"
  have "ctl (step w ev) = ctl w"
    by (simp only: Gesture step.simps ctl_fire ctl_viewport)
  with a show ?thesis by (simp add: ctl_def)
qed simp_all

lemma run_unmounted: "\<not> mounted w \<Longrightarrow> \<not> mounted (run w evs)"
  unfolding run_def by (induction evs arbitrary: w) (simp_all add: step_unmounted)

lemma unmount_unmounted: "\<not> mounted (step w Unmount)"
  by simp

lemma mapState_syncEffect: "mapState (syncEffect w) = mapState w"
proof (cases "mapState w")
  case None
  then show ?thesis by (simp add: syncEffect_def)
next
  case (Some m)
  have "mapState (setCenter m v) = mapState v" for v
    using ctl_setCenter [of m v] by (simp add: ctl_def)
  then show ?thesis
    by (simp add: syncEffect_def Some Let_def on_event_fields)
qed

lemma setMap_replaced:
  assumes "mo \<noteq> Some m"
  shows "\<not> mounted (step w (SetMap mo)) \<or> mapState (step w (SetMap mo)) \<noteq> Some m"
  using assms by (auto simp: mapState_syncEffect)


lemma syncEffect_overview:
  assumes "mapState v = Some k"
  shows "miniCenter (syncEffect v) = Some (center (maps v k))"
    and "miniZoom (syncEffect v) = max 1 (min 7 (zoom (maps v k) - 2))"
proof -
  define v1 where "v1 = setCenter k (v\<lparr>nextClosure := Suc (nextClosure v)\<rparr>)"
  have o: "miniCenter v1 = Some (center (maps v k))"
    "miniZoom v1 = max 1 (min 7 (zoom (maps v k) - 2))"
    by (simp_all add: v1_def setCenter_overview)
  have keep: "miniCenter (on_event k ty f u) = miniCenter u"
    "miniZoom (on_event k ty f u) = miniZoom u" for ty f u
    by (simp_all add: on_event_def Let_def)
  have e: "syncEffect v =
      (on_event k ''zoomend'' (SetCenter (nextClosure v) k)
        (on_event k ''move'' (SetCenter (nextClosure v) k) v1))
      \<lparr>syncCleanup := Some (k, SetCenter (nextClosure v) k)\<rparr>"
    by (simp add: syncEffect_def assms Let_def v1_def)
  show "miniCenter (syncEffect v) = Some (center (maps v k))"
    unfolding e by (simp add: keep o)
  show "miniZoom (syncEffect v) = max 1 (min 7 (zoom (maps v k) - 2))"
    unfolding e by (simp add: keep o)
qed

lemma foreignOnly_freshMaps: "foreignOnly freshMaps"
  by (simp add: foreignOnly_def freshMaps_def)

lemmas world_eval =
  run_def mount_def syncEffect_def runCleanup_def setCenter_def setView_def on_event_def
  off_event_def fire_def freshMaps_def subscriptions_def Let_def

text \<open>
  Claim C1. Each run of \<open>setCenter\<close> sets the overview centre to the centre of the
  primary instance and the overview zoom to clamp(zoom - 2, 1, 7), in the state of the
  component and on the overview instance when it exists; so does every notification
  that the synchronizer of a mounted component receives from the instance it holds.
  Primary zoom 6 gives 4, 2 gives 1, 10 gives 7.
\<close>

theorem overview_derivation:
  "miniCenter (setCenter m w) = Some (center (maps w m)) \<and>
   miniZoom (setCenter m w) = clamp (zoom (maps w m) - 2) 1 7 \<and>
   (miniMapRef w = Some k \<longrightarrow>
      center (maps (setCenter m w) k) = center (maps w m) \<and>
      zoom (maps (setCenter m w) k) = clamp (zoom (maps w m) - 2) 1 7) \<and>
   (foreignOnly ms \<and> w = run (mount ms) evs \<and> mounted w \<and> mapState w = Some m \<and>
    (ty = ''move'' \<or> ty = ''zoomend'') \<longrightarrow>
      miniCenter (step w (Gesture m ty c z)) = Some c \<and>
      miniZoom (step w (Gesture m ty c z)) = clamp (z - 2) 1 7) \<and>
   (zoom (maps w m) = 6 \<longrightarrow> miniZoom (setCenter m w) = 4) \<and>
   (zoom (maps w m) = 2 \<longrightarrow> miniZoom (setCenter m w) = 1) \<and>
   (zoom (maps w m) = 10 \<longrightarrow> miniZoom (setCenter m w) = 7)"
proof (intro conjI impI)
  show "miniCenter (setCenter m w) = Some (center (maps w m))"
    by (rule setCenter_overview)
  show "miniZoom (setCenter m w) = clamp (zoom (maps w m) - 2) 1 7"
    by (simp only: setCenter_overview clamp_max_min)
  show "zoom (maps w m) = 6 \<Longrightarrow> miniZoom (setCenter m w) = 4"
    by (simp add: setCenter_overview)
  show "zoom (maps w m) = 2 \<Longrightarrow> miniZoom (setCenter m w) = 1"
    by (simp add: setCenter_overview)
  show "zoom (maps w m) = 10 \<Longrightarrow> miniZoom (setCenter m w) = 7"
    by (simp add: setCenter_overview)
next
  assume "miniMapRef w = Some k"
  then show "center (maps (setCenter m w) k) = center (maps w m)"
    and "zoom (maps (setCenter m w) k) = clamp (zoom (maps w m) - 2) 1 7"
    by (simp_all only: setCenter_overview clamp_max_min)
next
  assume a: "foreignOnly ms \<and> w = run (mount ms) evs \<and> mounted w \<and> mapState w = Some m \<and>
    (ty = ''move'' \<or> ty = ''zoomend'')"
  then have i: "sync_inv w" by (simp add: reachable_inv)
  from a have g: "step w (Gesture m ty c z) =
      setCenter m (w\<lparr>maps := (maps w)(m := (maps w m)\<lparr>center := c, zoom := z\<rparr>)\<rparr>)"
    using gesture_current [OF i, of m ty c z] by auto
  show "miniCenter (step w (Gesture m ty c z)) = Some c"
    unfolding g by (simp add: setCenter_overview)
  show "miniZoom (step w (Gesture m ty c z)) = clamp (z - 2) 1 7"
    unfolding g by (simp add: setCenter_overview clamp_max_min)
qed

theorem overview_derivation_witness:
  "miniMapRef (run (mount freshMaps) [SetMap (Some 0), MiniCreated 1]) = Some 1 \<and>
   foreignOnly freshMaps \<and>
   mounted (run (mount freshMaps) [SetMap (Some 0), MiniCreated 1]) \<and>
   mapState (run (mount freshMaps) [SetMap (Some 0), MiniCreated 1]) = Some 0 \<and>
   miniCenter (step (run (mount freshMaps) [SetMap (Some 0), MiniCreated 1])
     (Gesture 0 ''move'' (1, 2) 10)) = Some (1, 2) \<and>
   miniZoom (step (run (mount freshMaps) [SetMap (Some 0), MiniCreated 1])
     (Gesture 0 ''move'' (1, 2) 10)) = 7 \<and>
   zoom (maps (mount freshMaps) 0) = 6 \<and> miniZoom (setCenter 0 (mount freshMaps)) = 4 \<and>
   zoom (maps (setView 0 (0, 0) 2 (mount freshMaps)) 0) = 2 \<and>
   miniZoom (setCenter 0 (setView 0 (0, 0) 2 (mount freshMaps))) = 1 \<and>
   zoom (maps (setView 0 (0, 0) 10 (mount freshMaps)) 0) = 10 \<and>
   miniZoom (setCenter 0 (setView 0 (0, 0) 10 (mount freshMaps))) = 7"
proof -
  define w where "w = run (mount freshMaps) [SetMap (Some 0), MiniCreated 1]"
  have h: "miniMapRef w = Some 1" "mounted w" "mapState w = Some 0"
    by (simp_all add: w_def world_eval)
  have z: "zoom (maps (mount freshMaps) 0) = 6"
    "zoom (maps (setView 0 (0, 0) 2 (mount freshMaps)) 0) = 2"
    "zoom (maps (setView 0 (0, 0) 10 (mount freshMaps)) 0) = 10"
    by (simp_all add: world_eval)
  have c: "clamp (10 - 2) 1 7 = 7" by (simp add: clamp_def)
  from overview_derivation [of 0 w 1 freshMaps "[SetMap (Some 0), MiniCreated 1]" "''move''" "(1, 2)" 10]
    h foreignOnly_freshMaps c w_def
  have g: "miniCenter (step w (Gesture 0 ''move'' (1, 2) 10)) = Some (1, 2)"
    "miniZoom (step w (Gesture 0 ''move'' (1, 2) 10)) = 7"
    by simp_all
  from overview_derivation [of 0 "mount freshMaps"] z(1)
  have z6: "miniZoom (setCenter 0 (mount freshMaps)) = 4" by blast
  from overview_derivation [of 0 "setView 0 (0, 0) 2 (mount freshMaps)"] z(2)
  have z2: "miniZoom (setCenter 0 (setView 0 (0, 0) 2 (mount freshMaps))) = 1" by blast
  from overview_derivation [of 0 "setView 0 (0, 0) 10 (mount freshMaps)"] z(3)
  have z10: "miniZoom (setCenter 0 (setView 0 (0, 0) 10 (mount freshMaps))) = 7" by blast
  from h g z z6 z2 z10 foreignOnly_freshMaps show ?thesis
    unfolding w_def by blast
qed


text \<open>
  Claim C6, as stated, fails: after the effect has run on an instance, the component
  listens to \<open>move\<close>, which the instance raises throughout a movement, and not to the
  end of a pan; a \<open>move\<close> notification in the middle of a drag recomputes the overview.
\<close>

theorem pan_end_only_counterexample:
  "\<not> set (subscriptions (run (mount freshMaps) [SetMap (Some 0)]) 0) \<subseteq> {''moveend'', ''zoomend''} \<and>
   miniCenter (run (mount freshMaps) [SetMap (Some 0)]) = Some (0, 0) \<and>
   miniCenter (run (mount freshMaps) [SetMap (Some 0), Gesture 0 ''move'' (1, 2) 6]) = Some (1, 2)"
  by (simp add: world_eval)

text \<open>
  Claim C6, amended. While the component is mounted and holds the instance \<open>m\<close>, its
  listeners on \<open>m\<close> are exactly one for \<open>move\<close> and one for \<open>zoomend\<close>; a notification of
  one of these two types runs \<open>setCenter\<close> once, and a notification of any other type
  leaves the overview as it is. The effect also runs \<open>setCenter\<close> once when it
  subscribes: after a run of the effect on an instance the overview has the centre of
  that instance and the zoom derived from its zoom.
\<close>

theorem subscription_types:
  assumes "foreignOnly ms" and "w = run (mount ms) evs" and "mounted w" and "mapState w = Some m"
  shows "subscriptions w m = [''move'', ''zoomend''] \<and>
    (ty = ''move'' \<or> ty = ''zoomend'' \<longrightarrow>
       step w (Gesture m ty c z) =
         setCenter m (w\<lparr>maps := (maps w)(m := (maps w m)\<lparr>center := c, zoom := z\<rparr>)\<rparr>)) \<and>
    (ty \<noteq> ''move'' \<and> ty \<noteq> ''zoomend'' \<longrightarrow>
       step w (Gesture m ty c z) =
         w\<lparr>maps := (maps w)(m := (maps w m)\<lparr>center := c, zoom := z\<rparr>)\<rparr>) \<and>
    (mapState v = Some k \<longrightarrow>
       miniCenter (syncEffect v) = Some (center (maps v k)) \<and>
       miniZoom (syncEffect v) = max 1 (min 7 (zoom (maps v k) - 2)))"
proof -
  have i: "sync_inv w" using assms(1,2) by (simp add: reachable_inv)
  from ours_current [OF i assms(3,4)]
  have s: "subscriptions w m = [''move'', ''zoomend'']"
    by (auto simp: subscriptions_def)
  from gesture_current [OF i assms(3,4), of ty c z] s show ?thesis
    by (simp add: syncEffect_overview)
qed

theorem subscription_types_witness:
  "foreignOnly freshMaps \<and>
   mounted (run (mount freshMaps) [SetMap (Some 0)]) \<and>
   mapState (run (mount freshMaps) [SetMap (Some 0)]) = Some 0 \<and>
   subscriptions (run (mount freshMaps) [SetMap (Some 0)]) 0 = [''move'', ''zoomend''] \<and>
   miniCenter (step (run (mount freshMaps) [SetMap (Some 0)]) (Gesture 0 ''zoomend'' (1, 2) 6)) =
     Some (1, 2) \<and>
   miniCenter (step (run (mount freshMaps) [SetMap (Some 0)]) (Gesture 0 ''moveend'' (1, 2) 6)) =
     Some (0, 0) \<and>
   mapState ((mount freshMaps)\<lparr>mapState := Some 0\<rparr>) = Some 0 \<and>
   miniCenter (mount freshMaps) = None \<and>
   miniCenter (syncEffect ((mount freshMaps)\<lparr>mapState := Some 0\<rparr>)) = Some (0, 0) \<and>
   miniZoom (syncEffect ((mount freshMaps)\<lparr>mapState := Some 0\<rparr>)) = 4"
proof -
  define w where "w = run (mount freshMaps) [SetMap (Some 0)]"
  define v where "v = (mount freshMaps)\<lparr>mapState := Some 0\<rparr>"
  have hv: "mapState v = Some 0" by (simp add: v_def)
  have cv: "center (maps v 0) = (0, 0)" "zoom (maps v 0) = 6"
    by (simp_all add: v_def world_eval)
  have nv: "miniCenter (mount freshMaps) = None"
    by (simp add: world_eval)
  have h: "mounted w" "mapState w = Some 0"
    by (simp_all add: w_def world_eval)
  have mc: "miniCenter w = Some (0, 0)"
    by (simp add: w_def world_eval)
  note t = subscription_types [OF foreignOnly_freshMaps w_def h]
  have s: "subscriptions w 0 = [''move'', ''zoomend'']"
    using t by blast
  have "step w (Gesture 0 ''zoomend'' (1, 2) 6) =
      setCenter 0 (w\<lparr>maps := (maps w)(0 := (maps w 0)\<lparr>center := (1, 2), zoom := 6\<rparr>)\<rparr>)"
    using t [of "''zoomend''" "(1, 2)" 6] by blast
  then have a: "miniCenter (step w (Gesture 0 ''zoomend'' (1, 2) 6)) = Some (1, 2)"
    by (simp add: setCenter_overview)
  have "step w (Gesture 0 ''moveend'' (1, 2) 6) =
      w\<lparr>maps := (maps w)(0 := (maps w 0)\<lparr>center := (1, 2), zoom := 6\<rparr>)\<rparr>"
    using t [of "''moveend''" "(1, 2)" 6] by simp
  then have b: "miniCenter (step w (Gesture 0 ''moveend'' (1, 2) 6)) = Some (0, 0)"
    by (simp add: mc)
  from t [of "''move''" "(0, 0)" 0 v 0] hv cv
  have e: "miniCenter (syncEffect v) = Some (0, 0)" "miniZoom (syncEffect v) = 4"
    by simp_all
  from foreignOnly_freshMaps h s a b hv nv e show ?thesis
    unfolding w_def v_def by blast
qed

text \<open>
  Claim C7. In every state the component reaches, an instance \<open>m\<close> that the component
  does not hold any more (it has unmounted, or \<open>map\<close> is another instance or null)
  carries no listener of the component, and a notification from \<open>m\<close> changes nothing but
  the viewport of \<open>m\<close> itself: the overview centre and zoom and every other instance stay
  as they are. After an unmount this is so for every instance and for ever; after
  \<open>map\<close> is replaced it is so for the old instance. An effect that ran with no instance
  registered nothing.
\<close>

theorem no_updates_after_teardown:
  assumes "foreignOnly ms" and "w = run (mount ms) evs"
  shows "(\<not> mounted w \<or> mapState w \<noteq> Some m \<longrightarrow>
           subscriptions w m = [] \<and>
           step w (Gesture m ty c z) =
             w\<lparr>maps := (maps w)(m := (maps w m)\<lparr>center := c, zoom := z\<rparr>)\<rparr> \<and>
           miniCenter (step w (Gesture m ty c z)) = miniCenter w \<and>
           miniZoom (step w (Gesture m ty c z)) = miniZoom w \<and>
           (\<forall>k. k \<noteq> m \<longrightarrow> maps (step w (Gesture m ty c z)) k = maps w k)) \<and>
         \<not> mounted (run w (Unmount # later)) \<and>
         (mo \<noteq> Some m \<longrightarrow>
           \<not> mounted (step w (SetMap mo)) \<or> mapState (step w (SetMap mo)) \<noteq> Some m)"
proof (intro conjI impI)
  have i: "sync_inv w" using assms by (simp add: reachable_inv)
  {
    assume a: "\<not> mounted w \<or> mapState w \<noteq> Some m"
    show "subscriptions w m = []"
      by (simp add: subscriptions_def ours_other [OF i a])
    show g: "step w (Gesture m ty c z) =
        w\<lparr>maps := (maps w)(m := (maps w m)\<lparr>center := c, zoom := z\<rparr>)\<rparr>"
      using i a by (rule gesture_other)
    show "miniCenter (step w (Gesture m ty c z)) = miniCenter w"
      unfolding g by simp
    show "miniZoom (step w (Gesture m ty c z)) = miniZoom w"
      unfolding g by simp
    show "\<forall>k. k \<noteq> m \<longrightarrow> maps (step w (Gesture m ty c z)) k = maps w k"
      unfolding g by simp
  }
  have "run w (Unmount # later) = run (step w Unmount) later"
    by (simp add: run_def)
  then show "\<not> mounted (run w (Unmount # later))"
    using run_unmounted [OF unmount_unmounted] by simp
  {
    assume "mo \<noteq> Some m"
    then show "\<not> mounted (step w (SetMap mo)) \<or> mapState (step w (SetMap mo)) \<noteq> Some m"
      by (rule setMap_replaced)
  }
qed

theorem no_updates_after_teardown_witness:
  "foreignOnly freshMaps \<and>
   \<not> mounted (run (mount freshMaps) [SetMap (Some 0), MiniCreated 1, Unmount]) \<and>
   subscriptions (run (mount freshMaps) [SetMap (Some 0), MiniCreated 1, Unmount]) 0 = [] \<and>
   miniCenter (step (run (mount freshMaps) [SetMap (Some 0), MiniCreated 1, Unmount])
     (Gesture 0 ''move'' (1, 2) 9)) = Some (0, 0) \<and>
   miniZoom (step (run (mount freshMaps) [SetMap (Some 0), MiniCreated 1, Unmount])
     (Gesture 0 ''move'' (1, 2) 9)) = 4 \<and>
   mapState (run (mount freshMaps) [SetMap (Some 0), SetMap (Some 2)]) \<noteq> Some 0 \<and>
   subscriptions (run (mount freshMaps) [SetMap (Some 0), SetMap (Some 2)]) 0 = []"
proof -
  define w where "w = run (mount freshMaps) [SetMap (Some 0), MiniCreated 1, Unmount]"
  define v where "v = run (mount freshMaps) [SetMap (Some 0), SetMap (Some 2)]"
  have h: "\<not> mounted w" by (simp add: w_def world_eval)
  have o: "miniCenter w = Some (0, 0)" "miniZoom w = 4"
    by (simp_all add: w_def world_eval)
  have hv: "mapState v \<noteq> Some 0" by (simp add: v_def world_eval)
  from no_updates_after_teardown [OF foreignOnly_freshMaps w_def, of 0 "''move''" "(1, 2)" 9] h o
  have a: "subscriptions w 0 = []"
    "miniCenter (step w (Gesture 0 ''move'' (1, 2) 9)) = Some (0, 0)"
    "miniZoom (step w (Gesture 0 ''move'' (1, 2) 9)) = 4"
    by simp_all
  from no_updates_after_teardown [OF foreignOnly_freshMaps v_def, of 0] hv
  have b: "subscriptions v 0 = []" by blast
  from foreignOnly_freshMaps h a hv b show ?thesis
    unfolding w_def v_def by blast
qed

subsection \<open>The legend overlay\<close>

lemma legendStep_cleanup_absent:
  "legendCleanup w = None \<Longrightarrow> legendCleanup (legendStep w ev) = None"
  by (cases ev)
    (simp_all add: legendEffect_def legendRunCleanup_def importResolved_def
      split: option.splits list.splits)

lemma legendStep_controls_kept:
  "legendCleanup w = None \<Longrightarrow> set (controls w) \<subseteq> set (controls (legendStep w ev))"
  by (cases ev)
    (auto simp: legendEffect_def legendRunCleanup_def importResolved_def
      split: option.splits list.splits)

lemma legendRun_controls_kept:
  "legendCleanup w = None \<Longrightarrow>
   legendCleanup (legendRun w evs) = None \<and> set (controls w) \<subseteq> set (controls (legendRun w evs))"
proof (induction evs arbitrary: w)
  case Nil
  then show ?case by (simp add: legendRun_def)
next
  case (Cons ev evs)
  from Cons.prems have c: "legendCleanup (legendStep w ev) = None"
    by (rule legendStep_cleanup_absent)
  from Cons.IH [OF c] legendStep_controls_kept [OF Cons.prems, of ev]
  show ?case by (auto simp: legendRun_def)
qed

text \<open>
  Claim C8 does not hold of the code. The cleanup \<open>() => legend.remove()\<close> is returned
  from the callback of the import, not from the effect, so no effect run has a cleanup
  and no control is ever removed. A legend is attached against instance 1, the
  component unmounts, and a legend is attached against instance 2: the first control is
  still there after the unmount, and two controls exist at the end.
\<close>

theorem legend_overlays_accumulate:
  "controls (legendRun noLegend [LegendMount (Some 1), ImportResolved, LegendUnmount]) = [(0, 1)] \<and>
   controls (legendRun noLegend
     [LegendMount (Some 1), ImportResolved, LegendUnmount, LegendMount (Some 2), ImportResolved]) =
     [(0, 1), (1, 2)] \<and>
   controls (legendRun noLegend
     [LegendMount (Some 1), LegendUnmount, LegendMount (Some 1), ImportResolved, ImportResolved]) =
     [(0, 1), (1, 1)]"
  by (simp add: legendRun_def noLegend_def legendEffect_def legendRunCleanup_def
    importResolved_def)

subsection \<open>The empty directory\<close>

lemma loadEffect_fulfilled: "fst (loadEffect r d) = Fulfilled"
  by (cases r)
    (simp_all add: loadEffect_def finallyStep_def catchStep_def thenStep_def
      split: option.splits)

lemma loadEffect_rejected:
  "loadEffect (Rejected e) d = (Fulfilled, d\<lparr>console := console d @ [e], loading := False\<rparr>)"
  by (simp add: loadEffect_def finallyStep_def catchStep_def thenStep_def)

lemma loadEffect_no_body:
  "r = ResolvedNoBody \<or> r = Resolved JsonNull \<Longrightarrow>
   loadEffect r d = (Fulfilled, d\<lparr>console := console d @ [''TypeError''], loading := False\<rparr>)"
  by (auto simp: loadEffect_def finallyStep_def catchStep_def thenStep_def)

lemma loadEffect_no_locations:
  "data \<noteq> JsonNull \<Longrightarrow> \<not> truthy (field data ''locations'') \<Longrightarrow>
   loadEffect (Resolved data) d = (Fulfilled, d\<lparr>locations := JsonArr [], loading := False\<rparr>)"
  by (cases "field data ''locations''")
    (simp_all add: loadEffect_def finallyStep_def catchStep_def thenStep_def)

lemma render_empty:
  "locations d = JsonArr [] \<Longrightarrow>
   render onSelect d = (if loading d then Inr LoadingView else Inr NoDataView)"
  by (simp add: render_def)

text \<open>
  A directory that is not a list of locations is stored as it is, and the render raises
  on it: on the list with a \<open>null\<close> element at once, on a string once the map library
  is loaded.
\<close>

lemma render_malformed_directory:
  "render True (snd (loadEffect (Resolved (JsonObj [(''locations'', JsonArr [JsonNull])]))
     initialDirectory)) = Inl TypeError"
  "render True (snd (loadEffect (Resolved (JsonObj [(''locations'', JsonStr ''abc'')]))
     (initialDirectory\<lparr>leafletLoaded := True\<rparr>))) = Inl TypeError"
  by (simp_all add: loadEffect_def finallyStep_def catchStep_def thenStep_def render_def
    initialDirectory_def)

text \<open>A directory that keeps the contract gives one marker for each location.\<close>

lemma render_well_formed:
  "render True (snd (loadEffect (Resolved (JsonObj [(''locations'', JsonArr [newDelhiJson])]))
     (initialDirectory\<lparr>leafletLoaded := True\<rparr>))) =
   Inr (MapView (Some (JsonNum 28.6), Some (JsonNum 77.2)) [mkMarker True newDelhiJson])"
  by (simp add: loadEffect_def finallyStep_def catchStep_def thenStep_def render_def
    initialDirectory_def newDelhiJson_def)

text \<open>
  Claim C9, as stated, fails: when the component has just mounted the directory is
  empty and the loading placeholder is rendered, not the no-data state.
\<close>

theorem empty_directory_counterexample:
  "locations initialDirectory = JsonArr [] \<and> render True initialDirectory \<noteq> Inr NoDataView"
  by (simp add: initialDirectory_def render_def)

text \<open>
  Claim C9, amended. With an empty directory the no-data state is rendered once the load
  has settled and the loading placeholder while it is outstanding; in both no marker
  is built and nothing is raised. A rejected request, and a response with no body or
  with the body \<open>null\<close>, leave the directory as it is, append the error to the console
  and end the loading, so from an empty directory the no-data state follows and nothing
  is raised to the host. A body without a truthy \<open>locations\<close> field empties the
  directory and ends the loading without logging anything, and the no-data state
  follows. The promise chain of the load is fulfilled however the request settles.
\<close>

theorem empty_directory_no_data:
  "(locations d = JsonArr [] \<and> \<not> loading d \<longrightarrow> render onSelect d = Inr NoDataView) \<and>
   (locations d = JsonArr [] \<and> loading d \<longrightarrow> render onSelect d = Inr LoadingView) \<and>
   (locations d = JsonArr [] \<longrightarrow> (\<exists>v. render onSelect d = Inr v \<and> markersOf v = [])) \<and>
   (locations d = JsonArr [] \<longrightarrow>
      loadEffect (Rejected e) d = (Fulfilled, d\<lparr>console := console d @ [e], loading := False\<rparr>) \<and>
      render onSelect (snd (loadEffect (Rejected e) d)) = Inr NoDataView) \<and>
   (locations d = JsonArr [] \<and> (r = ResolvedNoBody \<or> r = Resolved JsonNull) \<longrightarrow>
      loadEffect r d =
        (Fulfilled, d\<lparr>console := console d @ [''TypeError''], loading := False\<rparr>) \<and>
      render onSelect (snd (loadEffect r d)) = Inr NoDataView) \<and>
   (data \<noteq> JsonNull \<and> \<not> truthy (field data ''locations'') \<longrightarrow>
      loadEffect (Resolved data) d = (Fulfilled, d\<lparr>locations := JsonArr [], loading := False\<rparr>) \<and>
      render onSelect (snd (loadEffect (Resolved data) d)) = Inr NoDataView) \<and>
   fst (loadEffect r d) = Fulfilled \<and> \<not> loading (snd (loadEffect r d))"
proof (intro conjI impI)
  show "fst (loadEffect r d) = Fulfilled"
    by (rule loadEffect_fulfilled)
  show "\<not> loading (snd (loadEffect r d))"
    by (simp add: loadEffect_def finallyStep_def)
next
  assume "locations d = JsonArr [] \<and> \<not> loading d"
  then show "render onSelect d = Inr NoDataView" by (simp add: render_empty)
next
  assume "locations d = JsonArr [] \<and> loading d"
  then show "render onSelect d = Inr LoadingView" by (simp add: render_empty)
next
  assume "locations d = JsonArr []"
  then show "\<exists>v. render onSelect d = Inr v \<and> markersOf v = []"
    by (simp add: render_empty)
next
  assume a: "locations d = JsonArr []"
  show "loadEffect (Rejected e) d =
      (Fulfilled, d\<lparr>console := console d @ [e], loading := False\<rparr>)"
    by (rule loadEffect_rejected)
  show "render onSelect (snd (loadEffect (Rejected e) d)) = Inr NoDataView"
    using a by (simp add: loadEffect_rejected render_empty)
next
  assume a: "locations d = JsonArr [] \<and> (r = ResolvedNoBody \<or> r = Resolved JsonNull)"
  then have l: "loadEffect r d =
      (Fulfilled, d\<lparr>console := console d @ [''TypeError''], loading := False\<rparr>)"
    by (intro loadEffect_no_body) simp
  show "loadEffect r d =
      (Fulfilled, d\<lparr>console := console d @ [''TypeError''], loading := False\<rparr>)"
    by (rule l)
  show "render onSelect (snd (loadEffect r d)) = Inr NoDataView"
    unfolding l using a by (simp add: render_empty)
next
  assume a: "data \<noteq> JsonNull \<and> \<not> truthy (field data ''locations'')"
  then have l: "loadEffect (Resolved data) d =
      (Fulfilled, d\<lparr>locations := JsonArr [], loading := False\<rparr>)"
    by (intro loadEffect_no_locations) simp_all
  show "loadEffect (Resolved data) d =
      (Fulfilled, d\<lparr>locations := JsonArr [], loading := False\<rparr>)"
    by (rule l)
  show "render onSelect (snd (loadEffect (Resolved data) d)) = Inr NoDataView"
    unfolding l by (simp add: render_empty)
qed


theorem empty_directory_no_data_witness:
  "locations (initialDirectory\<lparr>loading := False\<rparr>) = JsonArr [] \<and>
   \<not> loading (initialDirectory\<lparr>loading := False\<rparr>) \<and>
   render True (initialDirectory\<lparr>loading := False\<rparr>) = Inr NoDataView \<and>
   locations initialDirectory = JsonArr [] \<and> loading initialDirectory \<and>
   render True initialDirectory = Inr LoadingView \<and>
   loadEffect (Rejected ''Network Error'') initialDirectory =
     (Fulfilled, initialDirectory\<lparr>console := [''Network Error''], loading := False\<rparr>) \<and>
   render True (snd (loadEffect (Rejected ''Network Error'') initialDirectory)) = Inr NoDataView \<and>
   loadEffect ResolvedNoBody initialDirectory =
     (Fulfilled, initialDirectory\<lparr>console := [''TypeError''], loading := False\<rparr>) \<and>
   render True (snd (loadEffect ResolvedNoBody initialDirectory)) = Inr NoDataView \<and>
   JsonObj [] \<noteq> JsonNull \<and> \<not> truthy (field (JsonObj []) ''locations'') \<and>
   loadEffect (Resolved (JsonObj [])) initialDirectory =
     (Fulfilled, initialDirectory\<lparr>locations := JsonArr [], loading := False\<rparr>) \<and>
   render True (snd (loadEffect (Resolved (JsonObj [])) initialDirectory)) = Inr NoDataView"
proof -
  have a: "locations (initialDirectory\<lparr>loading := False\<rparr>) = JsonArr []"
    "\<not> loading (initialDirectory\<lparr>loading := False\<rparr>)"
    by (simp_all add: initialDirectory_def)
  have b: "locations initialDirectory = JsonArr []" "loading initialDirectory"
    by (simp_all add: initialDirectory_def)
  have k: "console initialDirectory = []"
    by (simp add: initialDirectory_def)
  have j: "JsonObj [] \<noteq> JsonNull" "\<not> truthy (field (JsonObj []) ''locations'')"
    by simp_all
  from empty_directory_no_data [of "initialDirectory\<lparr>loading := False\<rparr>" True] a
  have c: "render True (initialDirectory\<lparr>loading := False\<rparr>) = Inr NoDataView" by blast
  note t = empty_directory_no_data
    [of initialDirectory True "''Network Error''" ResolvedNoBody "JsonObj []"]
  from t b have d1: "render True initialDirectory = Inr LoadingView" by blast
  from t b have "loadEffect (Rejected ''Network Error'') initialDirectory =
      (Fulfilled, initialDirectory\<lparr>console := console initialDirectory @ [''Network Error''],
         loading := False\<rparr>)" by blast
  then have d2: "loadEffect (Rejected ''Network Error'') initialDirectory =
      (Fulfilled, initialDirectory\<lparr>console := [''Network Error''], loading := False\<rparr>)"
    by (simp only: k append_Nil)
  from t b have d3:
    "render True (snd (loadEffect (Rejected ''Network Error'') initialDirectory)) = Inr NoDataView"
    by blast
  from t b have "loadEffect ResolvedNoBody initialDirectory =
      (Fulfilled, initialDirectory\<lparr>console := console initialDirectory @ [''TypeError''],
         loading := False\<rparr>)" by blast
  then have d4: "loadEffect ResolvedNoBody initialDirectory =
      (Fulfilled, initialDirectory\<lparr>console := [''TypeError''], loading := False\<rparr>)"
    by (simp only: k append_Nil)
  from t b have d5:
    "render True (snd (loadEffect ResolvedNoBody initialDirectory)) = Inr NoDataView"
    by blast
  from t j have d6: "loadEffect (Resolved (JsonObj [])) initialDirectory =
      (Fulfilled, initialDirectory\<lparr>locations := JsonArr [], loading := False\<rparr>)"
    by blast
  from t j have d7:
    "render True (snd (loadEffect (Resolved (JsonObj [])) initialDirectory)) = Inr NoDataView"
    by blast
  from a b c d1 d2 d3 d4 d5 d6 d7 j show ?thesis by blast
qed

end
